theory Spec2Isabelle
  imports Complex_Main
begin

section \<open>Data model of the drill engine\<close>

text \<open>
  The statistics and question module works on JavaScript numbers. Levels, streaks,
  operands, answers and millisecond timings are integral there (they come from integer
  literals, \<open>Math.floor\<close>, \<open>+ 1\<close> and differences of \<open>Date.now()\<close>), so they are
  modelled as \<^typ>\<open>int\<close>. The two places that leave the integers, the accuracy quotient
  and the value of \<open>Math.random()\<close>, are modelled as exact rationals.
\<close>

datatype SkillKey = Add | Sub | Mul | Div

record Result =
  correct :: bool
  ms :: int

record SkillStats =
  level :: int
  streak :: int
  mistakeStreak :: int
  history :: "Result list"

text \<open>\<open>Stats = Record<SkillKey, SkillStats>\<close>: one entry for each of the four keys.\<close>

type_synonym Stats = "SkillKey \<Rightarrow> SkillStats"

record LevelSpec =
  minA :: "int option"
  maxA :: int
  minB :: "int option"
  maxB :: int
  allowNegative :: "bool option"

definition MAX_HISTORY :: nat where
  "MAX_HISTORY = 12"

text \<open>The two shapes of entry the table uses: only the upper bounds, or all four bounds.\<close>

abbreviation upTo :: "int \<Rightarrow> int \<Rightarrow> LevelSpec" where
  "upTo a b \<equiv> \<lparr>minA = None, maxA = a, minB = None, maxB = b, allowNegative = None\<rparr>"

abbreviation between :: "int \<Rightarrow> int \<Rightarrow> int \<Rightarrow> int \<Rightarrow> LevelSpec" where
  "between a0 a1 b0 b1 \<equiv>
     \<lparr>minA = Some a0, maxA = a1, minB = Some b0, maxB = b1, allowNegative = None\<rparr>"

fun LEVELS :: "SkillKey \<Rightarrow> LevelSpec list" where
  "LEVELS Add =
     [upTo 10 10, upTo 20 20, upTo 30 30, upTo 50 50, upTo 75 75, upTo 100 100,
      upTo 150 150, upTo 250 250, upTo 500 500, upTo 1000 1000, upTo 1500 1500,
      upTo 2000 2000]"
| "LEVELS Sub =
     [upTo 10 10, upTo 20 20, upTo 30 30, upTo 50 50, upTo 75 75, upTo 100 100,
      upTo 150 150, upTo 250 250, upTo 500 500, upTo 1000 1000, upTo 1500 1500,
      upTo 2000 2000]"
| "LEVELS Mul =
     [upTo 5 5, upTo 9 9, upTo 12 12, upTo 15 15, upTo 20 20, upTo 25 25,
      upTo 30 30, upTo 40 40, upTo 50 50, upTo 60 60, upTo 75 75, upTo 90 90]"
| "LEVELS Div =
     [between 1 5 0 5, between 1 9 0 9, between 1 12 0 12, between 2 15 0 12,
      between 2 20 0 15, between 2 25 0 20, between 3 30 0 25, between 3 40 0 30,
      between 4 50 0 40, between 5 60 0 50, between 6 75 0 60, between 8 90 0 70]"

definition MAX_LEVEL :: int where
  "MAX_LEVEL = int (length (LEVELS Add))"

definition SKILL_LIST :: "SkillKey list" where
  "SKILL_LIST = [Add, Sub, Mul, Div]"

section \<open>The statistics engine\<close>

text \<open>\<open>clamp(value, min, max) = Math.min(Math.max(value, min), max)\<close>.\<close>

definition clamp :: "int \<Rightarrow> int \<Rightarrow> int \<Rightarrow> int" where
  "clamp v lo hi = min (max v lo) hi"

definition createDefaultStats :: Stats where
  "createDefaultStats =
     (\<lambda>k. \<lparr>level = 1, streak = 0, mistakeStreak = 0, history = []\<rparr>)"

definition getTargetMs :: "int \<Rightarrow> int" where
  "getTargetMs lv = (let base = 6000; drop = 300 in clamp (base - lv * drop) 2400 6000)"

text \<open>\<open>xs.slice(-n)\<close>: the last \<open>n\<close> elements, the whole array when it is shorter.\<close>

definition sliceLast :: "nat \<Rightarrow> 'a list \<Rightarrow> 'a list" where
  "sliceLast n xs = drop (length xs - n) xs"

text \<open>
  \<open>updateStats\<close>. The two \<open>if\<close> statements of the source run one after the other on
  the mutable \<open>nextLevel\<close>, \<open>leveledUp\<close> and \<open>leveledDown\<close>; \<open>up\<close> and \<open>down\<close> are their
  conditions.
\<close>

definition updateStats :: "Stats \<Rightarrow> SkillKey \<Rightarrow> bool \<Rightarrow> int \<Rightarrow> Stats" where
  "updateStats stats sk isCorrect elapsed =
     (let current = stats sk;
          nextHistory =
            sliceLast MAX_HISTORY (history current @ [\<lparr>correct = isCorrect, ms = elapsed\<rparr>]);
          nextStreak = (if isCorrect then streak current + 1 else 0);
          nextMistakeStreak = (if isCorrect then 0 else mistakeStreak current + 1);
          levelMax = int (length (LEVELS sk));
          up = (isCorrect \<and> nextStreak \<ge> 3 \<and> elapsed \<le> getTargetMs (level current));
          nextLevel1 = (if up then clamp (level current + 1) 1 levelMax else level current);
          leveledUp = (up \<and> nextLevel1 \<noteq> level current);
          down = (\<not> isCorrect \<and> nextMistakeStreak \<ge> 2);
          nextLevel = (if down then clamp (level current - 1) 1 levelMax else nextLevel1);
          leveledDown = (down \<and> nextLevel \<noteq> level current)
      in stats(sk := current
           \<lparr>level := nextLevel,
            streak := (if isCorrect \<and> \<not> leveledUp then nextStreak else 0),
            mistakeStreak := (if \<not> isCorrect \<and> \<not> leveledDown then nextMistakeStreak else 0),
            history := nextHistory\<rparr>))"

text \<open>A run of the engine: the results of a session, applied in order.\<close>

fun replay :: "Stats \<Rightarrow> (SkillKey \<times> bool \<times> int) list \<Rightarrow> Stats" where
  "replay stats [] = stats"
| "replay stats ((sk, isCorrect, elapsed) # rest) =
     replay (updateStats stats sk isCorrect elapsed) rest"

section \<open>Derived statistics and the weakest skill\<close>

text \<open>
  \<open>accuracyFromHistory\<close>: the \<open>reduce\<close> counts the correct results from the left. The
  quotient is an exact rational here; the source computes it in double precision, which
  orders two such quotients (and \<open>0.55\<close>) the same way as long as the histories are far
  shorter than \<open>2^26\<close> entries, and \<open>updateStats\<close> keeps them at 12.
\<close>

definition accuracyFromHistory :: "Result list \<Rightarrow> rat" where
  "accuracyFromHistory hist =
     (if length hist = 0 then 0
      else (let correctCount = foldl (\<lambda>total item. total + (if correct item then 1 else 0)) 0 hist
            in of_int correctCount / of_nat (length hist)))"

definition getAccuracy :: "SkillStats \<Rightarrow> rat" where
  "getAccuracy st = accuracyFromHistory (history st)"

definition skillScore :: "Stats \<Rightarrow> SkillKey \<Rightarrow> rat" where
  "skillScore stats sk =
     (let hist = history (stats sk)
      in if length hist = 0 then 55 / 100 else accuracyFromHistory hist)"

text \<open>
  \<open>getWeakestSkill\<close>: the \<open>forEach\<close> over \<open>SKILL_LIST\<close> updates the pair of mutable
  variables \<open>(weakest, weakestScore)\<close>, which starts at \<open>(SKILL_LIST[0], 1)\<close>.
\<close>

definition weakestStep :: "Stats \<Rightarrow> SkillKey \<times> rat \<Rightarrow> SkillKey \<Rightarrow> SkillKey \<times> rat" where
  "weakestStep stats acc sk =
     (let score = skillScore stats sk
      in if score < snd acc then (sk, score) else acc)"

definition getWeakestSkill :: "Stats \<Rightarrow> SkillKey" where
  "getWeakestSkill stats = fst (foldl (weakestStep stats) (hd SKILL_LIST, 1) SKILL_LIST)"

section \<open>The question generator\<close>

record Question =
  id' :: string
  "text" :: string
  answer :: int
  skill :: SkillKey
  level :: int

record Options =
  allowNegative :: "bool option"

text \<open>
  What a call draws from its environment, in the order the source draws it: the value of
  \<open>Math.random()\<close> for operand A, the one for operand B, \<open>Date.now()\<close>, and the
  hexadecimal digits \<open>Math.random().toString(16).slice(2)\<close> that end the id.
\<close>

record Entropy =
  randomA :: rat
  randomB :: rat
  now :: int
  hexDigits :: string

text \<open>A skill key is the string that names it.\<close>

fun skillName :: "SkillKey \<Rightarrow> string" where
  "skillName Add = ''add''"
| "skillName Sub = ''sub''"
| "skillName Mul = ''mul''"
| "skillName Div = ''div''"

text \<open>Template literals print an integral number in decimal, with a sign when negative.\<close>

definition digitChar :: "nat \<Rightarrow> char" where
  "digitChar d = ''0123456789'' ! d"

fun showNat :: "nat \<Rightarrow> string" where
  "showNat n = (if n < 10 then [digitChar n] else showNat (n div 10) @ [digitChar (n mod 10)])"

declare showNat.simps [simp del]

definition showInt :: "int \<Rightarrow> string" where
  "showInt i = (if i < 0 then CHR ''-'' # showNat (nat (- i)) else showNat (nat i))"

text \<open>
  \<open>randomInt(min, max)\<close> with the value \<open>u\<close> of \<open>Math.random()\<close> made a parameter. The
  bounds are integers, which \<open>Math.ceil\<close> and \<open>Math.floor\<close> leave as they are. The
  product is exact here; the source floors the product rounded to a double, which is
  one more than the floor of the exact product when that product lies within the
  rounding error below an integer. Either way the draw is an integer between the
  bounds, and the properties of the generated questions below hold for every draw.
\<close>

definition randomInt :: "int \<Rightarrow> int \<Rightarrow> rat \<Rightarrow> int" where
  "randomInt lo hi u =
     (let safeMin = lo; safeMax = hi
      in \<lfloor>u * of_int (safeMax - safeMin + 1)\<rfloor> + safeMin)"

definition getLevelSpec :: "SkillKey \<Rightarrow> int \<Rightarrow> LevelSpec" where
  "getLevelSpec sk lv =
     (let specs = LEVELS sk
      in specs ! nat (clamp (lv - 1) 0 (int (length specs) - 1)))"

definition freshId :: "SkillKey \<Rightarrow> Entropy \<Rightarrow> string" where
  "freshId sk e = skillName sk @ ''-'' @ showInt (now e) @ ''-'' @ hexDigits e"

text \<open>
  \<open>options?.allowNegative\<close>: undefined when no options are passed or when the options
  leave the field out.
\<close>

definition requestedNegative :: "Options option \<Rightarrow> bool option" where
  "requestedNegative options =
     (case options of None \<Rightarrow> None | Some opts \<Rightarrow> Options.allowNegative opts)"

definition generateQuestion :: "SkillKey \<Rightarrow> int \<Rightarrow> Options option \<Rightarrow> Entropy \<Rightarrow> Question" where
  "generateQuestion sk lv options e =
     (let spec = getLevelSpec sk lv;
          minA' = (case minA spec of Some v \<Rightarrow> v | None \<Rightarrow> 0);
          minB' = (case minB spec of Some v \<Rightarrow> v | None \<Rightarrow> 0);
          a = randomInt minA' (maxA spec) (randomA e);
          b = randomInt minB' (maxB spec) (randomB e)
      in if sk = Add then
           \<lparr>id' = freshId sk e, text = showInt a @ '' + '' @ showInt b, answer = a + b,
            skill = sk, level = lv\<rparr>
         else if sk = Sub then
           (let allowNeg =
                  (case requestedNegative options of
                     Some v \<Rightarrow> v
                   | None \<Rightarrow> (case LevelSpec.allowNegative spec of Some v \<Rightarrow> v | None \<Rightarrow> False));
                high = (if allowNeg then a else max a b);
                low = (if allowNeg then b else min a b)
            in \<lparr>id' = freshId sk e, text = showInt high @ '' - '' @ showInt low,
                answer = high - low, skill = sk, level = lv\<rparr>)
         else if sk = Mul then
           \<lparr>id' = freshId sk e, text = showInt a @ '' x '' @ showInt b, answer = a * b,
            skill = sk, level = lv\<rparr>
         else
           (let divisor = max 1 a;
                quotient = b;
                dividend = divisor * quotient
            in \<lparr>id' = freshId sk e, text = showInt dividend @ '' / '' @ showInt divisor,
                answer = quotient, skill = sk, level = lv\<rparr>))"

text \<open>
  The operands a call draws (the locals \<open>a\<close> and \<open>b\<close> of \<open>generateQuestion\<close>), named so
  that properties of the generated question can refer to them.
\<close>

definition operandA :: "SkillKey \<Rightarrow> int \<Rightarrow> Entropy \<Rightarrow> int" where
  "operandA sk lv e =
     (let spec = getLevelSpec sk lv
      in randomInt (case minA spec of Some v \<Rightarrow> v | None \<Rightarrow> 0) (maxA spec) (randomA e))"

definition operandB :: "SkillKey \<Rightarrow> int \<Rightarrow> Entropy \<Rightarrow> int" where
  "operandB sk lv e =
     (let spec = getLevelSpec sk lv
      in randomInt (case minB spec of Some v \<Rightarrow> v | None \<Rightarrow> 0) (maxB spec) (randomB e))"

section \<open>The mistake ledger\<close>

record MistakeItem =
  id' :: string
  "text" :: string
  answer :: int
  skill :: SkillKey
  level :: int
  misses :: int
  lastMissedAt :: int

definition MAX_MISTAKES :: nat where
  "MAX_MISTAKES = 50"

definition makeMistakeId :: "Question \<Rightarrow> string" where
  "makeMistakeId question = skillName (Question.skill question) @ '':'' @ Question.text question"

text \<open>\<open>findIndex\<close>: the first index whose element passes the test; \<open>None\<close> is the \<open>-1\<close>.\<close>

fun findIndex :: "('a \<Rightarrow> bool) \<Rightarrow> 'a list \<Rightarrow> nat option" where
  "findIndex p [] = None"
| "findIndex p (x # xs) =
     (if p x then Some 0 else (case findIndex p xs of None \<Rightarrow> None | Some i \<Rightarrow> Some (Suc i)))"

text \<open>\<open>next.splice(i, 1)\<close> on a copy: the list without its element at index \<open>i\<close>.\<close>

definition spliceOut :: "nat \<Rightarrow> 'a list \<Rightarrow> 'a list" where
  "spliceOut i xs = take i xs @ drop (Suc i) xs"

text \<open>\<open>addMistakeEntry\<close>, with the value \<open>clock\<close> of \<open>Date.now()\<close> made a parameter.\<close>

definition addMistakeEntry :: "MistakeItem list \<Rightarrow> Question \<Rightarrow> int \<Rightarrow> MistakeItem list" where
  "addMistakeEntry items question clock =
     (let ident = makeMistakeId question
      in case findIndex (\<lambda>item. MistakeItem.id' item = ident) items of
           None \<Rightarrow>
             take MAX_MISTAKES
               (\<lparr>id' = ident, text = Question.text question, answer = Question.answer question,
                 skill = Question.skill question, level = Question.level question,
                 misses = 1, lastMissedAt = clock\<rparr> # items)
         | Some existingIndex \<Rightarrow>
             (let existing = items ! existingIndex;
                  next = spliceOut existingIndex items
              in take MAX_MISTAKES
                   (existing\<lparr>MistakeItem.answer := Question.answer question,
                             MistakeItem.level := Question.level question,
                             misses := misses existing + 1,
                             lastMissedAt := clock\<rparr> # next)))"

section \<open>Properties of the leveling state machine\<close>

lemma length_LEVELS: "length (LEVELS k) = 12"
  by (cases k) simp_all

lemma MAX_LEVEL_eq: "MAX_LEVEL = 12"
  by (simp add: MAX_LEVEL_def)

lemmas updateStats_unfold =
  updateStats_def Let_def length_LEVELS clamp_def sliceLast_def MAX_HISTORY_def

text \<open>
  Claim C1. Take a skill whose streak is 0 and whose level \<open>L\<close> lies below \<open>MAX_LEVEL\<close>
  (and is not negative: the data model has levels from 1). Three correct results in a
  row for that skill, each within the target time of \<open>L\<close>, leave the level at \<open>L\<close> after
  the first and the second and move it to exactly \<open>L + 1\<close> at the third, where the
  streak is back at 0.
\<close>

theorem three_fast_correct_level_up_once:
  assumes "streak (s k) = 0"
    and "0 \<le> SkillStats.level (s k)"
    and "SkillStats.level (s k) < MAX_LEVEL"
    and "t1 \<le> getTargetMs (SkillStats.level (s k))"
    and "t2 \<le> getTargetMs (SkillStats.level (s k))"
    and "t3 \<le> getTargetMs (SkillStats.level (s k))"
  defines "s1 \<equiv> updateStats s k True t1"
  defines "s2 \<equiv> updateStats s1 k True t2"
  defines "s3 \<equiv> updateStats s2 k True t3"
  shows "SkillStats.level (s1 k) = SkillStats.level (s k)
       \<and> SkillStats.level (s2 k) = SkillStats.level (s k)
       \<and> SkillStats.level (s3 k) = SkillStats.level (s k) + 1
       \<and> streak (s3 k) = 0"
proof -
  have one: "SkillStats.level (s1 k) = SkillStats.level (s k) \<and> streak (s1 k) = 1"
    using assms(1) by (simp add: s1_def updateStats_unfold)
  have two: "SkillStats.level (s2 k) = SkillStats.level (s k) \<and> streak (s2 k) = 2"
    using one by (simp add: s2_def updateStats_unfold)
  have three: "SkillStats.level (s3 k) = SkillStats.level (s k) + 1 \<and> streak (s3 k) = 0"
    using two assms(2,3,6) by (simp add: s3_def updateStats_unfold MAX_LEVEL_eq)
  from one two three show ?thesis by simp
qed

theorem three_fast_correct_level_up_once_witness:
  "streak (createDefaultStats Mul) = 0
   \<and> 0 \<le> SkillStats.level (createDefaultStats Mul)
   \<and> SkillStats.level (createDefaultStats Mul) < MAX_LEVEL
   \<and> 1000 \<le> getTargetMs (SkillStats.level (createDefaultStats Mul))
   \<and> SkillStats.level
        (updateStats (updateStats (updateStats createDefaultStats Mul True 1000) Mul True 1000)
           Mul True 1000 Mul) = 2
   \<and> streak
        (updateStats (updateStats (updateStats createDefaultStats Mul True 1000) Mul True 1000)
           Mul True 1000 Mul) = 0"
  using three_fast_correct_level_up_once [of createDefaultStats Mul 1000 1000 1000]
  by (simp add: createDefaultStats_def MAX_LEVEL_eq getTargetMs_def clamp_def)

text \<open>
  Claim C2, as the code has it. Take a skill whose mistake streak is 0 and whose level
  \<open>L\<close> lies in \<open>[1, MAX_LEVEL]\<close>. The first of two wrong results in a row for that skill
  leaves the level at \<open>L\<close>. When \<open>L\<close> is at least 2, the second moves the level to
  exactly \<open>L - 1\<close> and the mistake streak is back at 0. When \<open>L\<close> is 1, the level stays
  1 and the mistake streak is 2.
\<close>

theorem two_wrong_level_down_once:
  fixes s :: Stats and k :: SkillKey and t1 t2 :: int
  assumes "mistakeStreak (s k) = 0"
    and "1 \<le> SkillStats.level (s k)"
    and "SkillStats.level (s k) \<le> MAX_LEVEL"
  defines "s1 \<equiv> updateStats s k False t1"
  defines "s2 \<equiv> updateStats s1 k False t2"
  shows "SkillStats.level (s1 k) = SkillStats.level (s k)
       \<and> (2 \<le> SkillStats.level (s k) \<longrightarrow>
            SkillStats.level (s2 k) = SkillStats.level (s k) - 1 \<and> mistakeStreak (s2 k) = 0)
       \<and> (SkillStats.level (s k) = 1 \<longrightarrow>
            SkillStats.level (s2 k) = 1 \<and> mistakeStreak (s2 k) = 2)"
proof -
  have one: "SkillStats.level (s1 k) = SkillStats.level (s k) \<and> mistakeStreak (s1 k) = 1"
    using assms(1) by (simp add: s1_def updateStats_unfold)
  have down: "SkillStats.level (s2 k) = SkillStats.level (s k) - 1 \<and> mistakeStreak (s2 k) = 0"
    if "2 \<le> SkillStats.level (s k)"
    using one that assms(3) by (simp add: s2_def updateStats_unfold MAX_LEVEL_eq)
  have floor: "SkillStats.level (s2 k) = 1 \<and> mistakeStreak (s2 k) = 2"
    if "SkillStats.level (s k) = 1"
    using one that by (simp add: s2_def updateStats_unfold)
  from one down floor show ?thesis by blast
qed

theorem two_wrong_level_down_once_witness:
  "mistakeStreak
     ((createDefaultStats(Sub := \<lparr>SkillStats.level = 5, streak = 2, mistakeStreak = 0, history = []\<rparr>)) Sub) = 0
   \<and> SkillStats.level
     ((createDefaultStats(Sub := \<lparr>SkillStats.level = 5, streak = 2, mistakeStreak = 0, history = []\<rparr>)) Sub)
       = 5
   \<and> 5 \<le> MAX_LEVEL
   \<and> SkillStats.level
        (updateStats
           (updateStats
              (createDefaultStats(Sub := \<lparr>SkillStats.level = 5, streak = 2, mistakeStreak = 0, history = []\<rparr>))
              Sub False 4000)
           Sub False 7000 Sub) = 4
   \<and> mistakeStreak
        (updateStats
           (updateStats
              (createDefaultStats(Sub := \<lparr>SkillStats.level = 5, streak = 2, mistakeStreak = 0, history = []\<rparr>))
              Sub False 4000)
           Sub False 7000 Sub) = 0
   \<and> mistakeStreak (createDefaultStats Div) = 0
   \<and> SkillStats.level (createDefaultStats Div) = 1
   \<and> SkillStats.level
        (updateStats (updateStats createDefaultStats Div False 6100) Div False 5200 Div) = 1
   \<and> mistakeStreak
        (updateStats (updateStats createDefaultStats Div False 6100) Div False 5200 Div) = 2"
  using two_wrong_level_down_once
    [of "createDefaultStats(Sub := \<lparr>SkillStats.level = 5, streak = 2, mistakeStreak = 0, history = []\<rparr>)"
        Sub 4000 7000]
    two_wrong_level_down_once [of createDefaultStats Div 6100 5200]
  by (simp add: MAX_LEVEL_eq createDefaultStats_def)

text \<open>
  Claim C2 as stated fails at level 1, the level every skill starts at: the clamp keeps
  the level at 1, so the level did not change and the mistake streak is kept. From the
  default state, two wrong results leave level 1 and mistake streak 2.
\<close>

theorem two_wrong_at_level_one_counterexample:
  "mistakeStreak (createDefaultStats Add) = 0
   \<and> SkillStats.level (updateStats (updateStats createDefaultStats Add False 4000) Add False 7000 Add)
       = SkillStats.level (createDefaultStats Add)
   \<and> SkillStats.level (updateStats (updateStats createDefaultStats Add False 4000) Add False 7000 Add)
       \<noteq> SkillStats.level (createDefaultStats Add) - 1
   \<and> mistakeStreak (updateStats (updateStats createDefaultStats Add False 4000) Add False 7000 Add) = 2"
  by (simp add: createDefaultStats_def updateStats_unfold)

lemma updateStats_one_streak_zero:
  "streak (s k') = 0 \<or> mistakeStreak (s k') = 0 \<Longrightarrow>
   streak (updateStats s k c t k') = 0 \<or> mistakeStreak (updateStats s k c t k') = 0"
  by (cases "k' = k") (simp_all add: updateStats_def Let_def)

lemma replay_one_streak_zero:
  "streak (s k') = 0 \<or> mistakeStreak (s k') = 0 \<Longrightarrow>
   streak (replay s evs k') = 0 \<or> mistakeStreak (replay s evs k') = 0"
proof (induction evs arbitrary: s)
  case Nil
  then show ?case by simp
next
  case (Cons ev evs)
  obtain k c t where ev: "ev = (k, c, t)" by (cases ev) auto
  have "streak (updateStats s k c t k') = 0 \<or> mistakeStreak (updateStats s k c t k') = 0"
    using Cons.prems by (rule updateStats_one_streak_zero)
  then show ?case unfolding ev replay.simps by (rule Cons.IH)
qed

lemma updateStats_streaks_nonneg:
  "0 \<le> streak (s k') \<and> 0 \<le> mistakeStreak (s k') \<Longrightarrow>
   0 \<le> streak (updateStats s k c t k') \<and> 0 \<le> mistakeStreak (updateStats s k c t k')"
  by (cases "k' = k") (simp_all add: updateStats_def Let_def)

lemma replay_streaks_nonneg:
  "0 \<le> streak (s k') \<and> 0 \<le> mistakeStreak (s k') \<Longrightarrow>
   0 \<le> streak (replay s evs k') \<and> 0 \<le> mistakeStreak (replay s evs k')"
proof (induction evs arbitrary: s)
  case Nil
  then show ?case by simp
next
  case (Cons ev evs)
  obtain k c t where ev: "ev = (k, c, t)" by (cases ev) auto
  have "0 \<le> streak (updateStats s k c t k') \<and> 0 \<le> mistakeStreak (updateStats s k c t k')"
    using Cons.prems by (rule updateStats_streaks_nonneg)
  then show ?case unfolding ev replay.simps by (rule Cons.IH)
qed

lemma replay_append: "replay s (xs @ ys) = replay (replay s xs) ys"
proof (induction xs arbitrary: s)
  case Nil
  show ?case by simp
next
  case (Cons ev xs)
  obtain k c t where ev: "ev = (k, c, t)" by (cases ev) auto
  show ?case unfolding ev by (simp add: Cons.IH)
qed

lemma replay_other_skills:
  "\<forall>ev \<in> set evs. fst ev \<noteq> k' \<Longrightarrow> replay s evs k' = s k'"
proof (induction evs arbitrary: s)
  case Nil
  show ?case by simp
next
  case (Cons ev evs)
  obtain k c t where ev: "ev = (k, c, t)" by (cases ev) auto
  from Cons.prems have k: "k \<noteq> k'" and rest: "\<forall>ev \<in> set evs. fst ev \<noteq> k'"
    by (simp_all add: ev)
  have "replay (updateStats s k c t) evs k' = updateStats s k c t k'"
    using rest by (rule Cons.IH)
  also have "\<dots> = s k'"
    using k by (simp add: updateStats_def Let_def)
  finally show ?case by (simp add: ev)
qed

text \<open>
  One result for a skill whose counters are not negative: when the level of the skill
  is the same afterwards, exactly one of its two counters is nonzero; when the level
  changed, both are 0.
\<close>

lemma updateStats_streaks_by_level:
  assumes "0 \<le> streak (s k)" and "0 \<le> mistakeStreak (s k)"
  shows "(SkillStats.level (updateStats s k c t k) = SkillStats.level (s k) \<longrightarrow>
            (streak (updateStats s k c t k) \<noteq> 0) \<noteq> (mistakeStreak (updateStats s k c t k) \<noteq> 0))
       \<and> (SkillStats.level (updateStats s k c t k) \<noteq> SkillStats.level (s k) \<longrightarrow>
            streak (updateStats s k c t k) = 0 \<and> mistakeStreak (updateStats s k c t k) = 0)"
proof (cases c)
  case True
  then show ?thesis
    using assms(1) by (simp add: updateStats_def Let_def)
next
  case False
  then show ?thesis
    using assms(2) by (simp add: updateStats_def Let_def)
qed

text \<open>
  Claim C3, as the code has it. In every state reached from \<open>createDefaultStats\<close> by a
  sequence of \<open>updateStats\<close> calls, for each skill the two counters are not negative
  and at most one of them is nonzero. Exactly one of them is nonzero when the latest
  result for the skill left its level as it was. Both are 0 in the two remaining cases:
  the skill has had no result yet, or its latest result changed its level. A skill that
  has had a result has a latest one, so the three cases cover every reachable state.
\<close>

theorem reachable_streaks_exactly_one_unless_level_changed:
  fixes evs :: "(SkillKey \<times> bool \<times> int) list" and k :: SkillKey
  defines "s \<equiv> replay createDefaultStats evs"
  shows "(streak (s k) = 0 \<or> mistakeStreak (s k) = 0)
       \<and> 0 \<le> streak (s k) \<and> 0 \<le> mistakeStreak (s k)
       \<and> ((\<forall>ev \<in> set evs. fst ev \<noteq> k) \<longrightarrow> streak (s k) = 0 \<and> mistakeStreak (s k) = 0)
       \<and> ((\<exists>ev \<in> set evs. fst ev = k) \<longrightarrow>
            (\<exists>earlier c t later.
               evs = earlier @ (k, c, t) # later \<and> (\<forall>ev \<in> set later. fst ev \<noteq> k)))
       \<and> (\<forall>earlier c t later.
             evs = earlier @ (k, c, t) # later \<and> (\<forall>ev \<in> set later. fst ev \<noteq> k) \<longrightarrow>
               (SkillStats.level (s k) = SkillStats.level (replay createDefaultStats earlier k) \<longrightarrow>
                  (streak (s k) \<noteq> 0) \<noteq> (mistakeStreak (s k) \<noteq> 0))
             \<and> (SkillStats.level (s k) \<noteq> SkillStats.level (replay createDefaultStats earlier k) \<longrightarrow>
                  streak (s k) = 0 \<and> mistakeStreak (s k) = 0))"
proof -
  have atmost: "streak (s k) = 0 \<or> mistakeStreak (s k) = 0"
    unfolding s_def by (rule replay_one_streak_zero) (simp add: createDefaultStats_def)
  have nonneg: "0 \<le> streak (s k) \<and> 0 \<le> mistakeStreak (s k)"
    unfolding s_def by (rule replay_streaks_nonneg) (simp add: createDefaultStats_def)
  have untouched: "streak (s k) = 0 \<and> mistakeStreak (s k) = 0"
    if "\<forall>ev \<in> set evs. fst ev \<noteq> k"
    unfolding s_def using replay_other_skills [OF that, of createDefaultStats]
    by (simp add: createDefaultStats_def)
  have latest:
    "(SkillStats.level (s k) = SkillStats.level (replay createDefaultStats earlier k) \<longrightarrow>
        (streak (s k) \<noteq> 0) \<noteq> (mistakeStreak (s k) \<noteq> 0))
     \<and> (SkillStats.level (s k) \<noteq> SkillStats.level (replay createDefaultStats earlier k) \<longrightarrow>
        streak (s k) = 0 \<and> mistakeStreak (s k) = 0)"
    if split: "evs = earlier @ (k, c, t) # later" and rest: "\<forall>ev \<in> set later. fst ev \<noteq> k"
    for earlier c t later
  proof -
    let ?before = "replay createDefaultStats earlier"
    have "s = replay (updateStats ?before k c t) later"
      unfolding s_def split by (simp add: replay_append)
    then have here: "s k = updateStats ?before k c t k"
      using replay_other_skills [OF rest] by simp
    have "0 \<le> streak (?before k) \<and> 0 \<le> mistakeStreak (?before k)"
      by (rule replay_streaks_nonneg) (simp add: createDefaultStats_def)
    then show ?thesis
      unfolding here using updateStats_streaks_by_level [of ?before k c t] by blast
  qed
  have touched: "\<exists>earlier c t later.
               evs = earlier @ (k, c, t) # later \<and> (\<forall>ev \<in> set later. fst ev \<noteq> k)"
    if "\<exists>ev \<in> set evs. fst ev = k"
  proof -
    from split_list_last_prop [OF that]
    obtain earlier ev later where parts: "evs = earlier @ ev # later"
      and ev: "fst ev = k" and rest: "\<forall>x \<in> set later. fst x \<noteq> k"
      by blast
    obtain c t where "ev = (k, c, t)" using ev by (cases ev) auto
    with parts rest show ?thesis by blast
  qed
  from atmost nonneg untouched touched latest show ?thesis by blast
qed

theorem reachable_streaks_exactly_one_unless_level_changed_witness:
  "streak (replay createDefaultStats [(Mul, True, 1000), (Add, False, 500)] Mul) = 1
   \<and> mistakeStreak (replay createDefaultStats [(Mul, True, 1000), (Add, False, 500)] Mul) = 0
   \<and> SkillStats.level (replay createDefaultStats [(Mul, True, 1000), (Add, False, 500)] Mul)
       = SkillStats.level (replay createDefaultStats [] Mul)
   \<and> streak (replay createDefaultStats [(Mul, True, 1000), (Add, False, 500)] Div) = 0
   \<and> mistakeStreak (replay createDefaultStats [(Mul, True, 1000), (Add, False, 500)] Div) = 0
   \<and> SkillStats.level
        (replay createDefaultStats [(Sub, True, 900), (Sub, True, 900), (Sub, True, 900)] Sub) = 2
   \<and> SkillStats.level (replay createDefaultStats [(Sub, True, 900), (Sub, True, 900)] Sub) = 1
   \<and> streak
        (replay createDefaultStats [(Sub, True, 900), (Sub, True, 900), (Sub, True, 900)] Sub) = 0
   \<and> mistakeStreak
        (replay createDefaultStats [(Sub, True, 900), (Sub, True, 900), (Sub, True, 900)] Sub) = 0"
  using reachable_streaks_exactly_one_unless_level_changed
      [of "[(Mul, True, 1000), (Add, False, 500)]" Mul]
    reachable_streaks_exactly_one_unless_level_changed
      [of "[(Mul, True, 1000), (Add, False, 500)]" Div]
    reachable_streaks_exactly_one_unless_level_changed
      [of "[(Sub, True, 900), (Sub, True, 900), (Sub, True, 900)]" Sub]
  by (simp add: createDefaultStats_def updateStats_unfold getTargetMs_def)

text \<open>
  Claim C3 as stated asks for exactly one of the two to be nonzero. Both are 0 in the
  default state, and both are 0 again right after a level change: here after the three
  fast correct results that lift multiplication to level 2.
\<close>

theorem both_streaks_zero_counterexample:
  "streak (replay createDefaultStats [] Add) = 0
   \<and> mistakeStreak (replay createDefaultStats [] Add) = 0
   \<and> streak (replay createDefaultStats [(Mul, True, 1000), (Mul, True, 1000), (Mul, True, 1000)] Mul) = 0
   \<and> mistakeStreak
        (replay createDefaultStats [(Mul, True, 1000), (Mul, True, 1000), (Mul, True, 1000)] Mul) = 0"
  by (simp add: createDefaultStats_def updateStats_unfold getTargetMs_def)

section \<open>History cap, level range and frame\<close>

text \<open>
  Claim C6. Whatever the length of the stored history, the history \<open>updateStats\<close>
  returns has at most 12 entries and ends with the new result. It is the old history
  with the new result appended when that fits, and the old history without its
  oldest entry, followed by the new result, when the old history was full (12 entries).
\<close>

theorem updateStats_history_capped:
  fixes s :: Stats and k :: SkillKey and c :: bool and t :: int
  defines "old \<equiv> history (s k)"
  defines "new \<equiv> history (updateStats s k c t k)"
  shows "length new \<le> 12
       \<and> new = drop (length old + 1 - 12) (old @ [\<lparr>correct = c, ms = t\<rparr>])
       \<and> last new = \<lparr>correct = c, ms = t\<rparr>
       \<and> (length old < 12 \<longrightarrow> new = old @ [\<lparr>correct = c, ms = t\<rparr>])
       \<and> (length old = 12 \<longrightarrow> new = tl old @ [\<lparr>correct = c, ms = t\<rparr>])"
proof -
  have eq: "new = drop (length old + 1 - 12) (old @ [\<lparr>correct = c, ms = t\<rparr>])"
    by (simp add: new_def old_def updateStats_unfold)
  have len: "length new \<le> 12"
    unfolding eq by simp
  have lst: "last new = \<lparr>correct = c, ms = t\<rparr>"
    unfolding eq by simp
  have short: "length old < 12 \<longrightarrow> new = old @ [\<lparr>correct = c, ms = t\<rparr>]"
    unfolding eq by simp
  have full: "length old = 12 \<longrightarrow> new = tl old @ [\<lparr>correct = c, ms = t\<rparr>]"
    unfolding eq by (cases old) simp_all
  from eq len lst short full show ?thesis by blast
qed

theorem updateStats_history_capped_witness:
  "length (history ((createDefaultStats(Add := \<lparr>SkillStats.level = 3, streak = 0, mistakeStreak = 1,
       history = map (\<lambda>n. \<lparr>correct = True, ms = n\<rparr>) [1, 2, 3, 4, 5, 6, 7, 8, 9, 10, 11, 12]\<rparr>)) Add)) = 12
   \<and> history (updateStats (createDefaultStats(Add := \<lparr>SkillStats.level = 3, streak = 0, mistakeStreak = 1,
       history = map (\<lambda>n. \<lparr>correct = True, ms = n\<rparr>) [1, 2, 3, 4, 5, 6, 7, 8, 9, 10, 11, 12]\<rparr>))
         Add False 13 Add)
       = map (\<lambda>n. \<lparr>correct = True, ms = n\<rparr>) [2, 3, 4, 5, 6, 7, 8, 9, 10, 11, 12]
           @ [\<lparr>correct = False, ms = 13\<rparr>]
   \<and> length (history (createDefaultStats Add)) < 12
   \<and> history (updateStats createDefaultStats Add True 900 Add) = [\<lparr>correct = True, ms = 900\<rparr>]"
  using updateStats_history_capped [of "createDefaultStats(Add := \<lparr>SkillStats.level = 3, streak = 0,
       mistakeStreak = 1,
       history = map (\<lambda>n. \<lparr>correct = True, ms = n\<rparr>) [1, 2, 3, 4, 5, 6, 7, 8, 9, 10, 11, 12]\<rparr>)"
       Add False 13]
    updateStats_history_capped [of createDefaultStats Add True 900]
  by (simp add: createDefaultStats_def)

lemma updateStats_level_in_range:
  "1 \<le> SkillStats.level (s k') \<and> SkillStats.level (s k') \<le> MAX_LEVEL \<Longrightarrow>
   1 \<le> SkillStats.level (updateStats s k c t k')
   \<and> SkillStats.level (updateStats s k c t k') \<le> MAX_LEVEL"
  by (cases "k' = k") (simp_all add: updateStats_unfold MAX_LEVEL_eq)

lemma replay_level_in_range:
  "1 \<le> SkillStats.level (s k') \<and> SkillStats.level (s k') \<le> MAX_LEVEL \<Longrightarrow>
   1 \<le> SkillStats.level (replay s evs k') \<and> SkillStats.level (replay s evs k') \<le> MAX_LEVEL"
proof (induction evs arbitrary: s)
  case Nil
  then show ?case by simp
next
  case (Cons ev evs)
  obtain k c t where ev: "ev = (k, c, t)" by (cases ev) auto
  have "1 \<le> SkillStats.level (updateStats s k c t k')
        \<and> SkillStats.level (updateStats s k c t k') \<le> MAX_LEVEL"
    using Cons.prems by (rule updateStats_level_in_range)
  then show ?case unfolding ev replay.simps by (rule Cons.IH)
qed

text \<open>
  Claim C7. When a skill's level lies in \<open>[1, MAX_LEVEL]\<close>, the level \<open>updateStats\<close>
  returns for it lies in \<open>[1, MAX_LEVEL]\<close> too, and so does the level after any further
  sequence of results: no streak of fast correct answers lifts it above \<open>MAX_LEVEL\<close> and
  no streak of mistakes takes it below 1.
\<close>

theorem level_stays_in_range:
  assumes "1 \<le> SkillStats.level (s k)" and "SkillStats.level (s k) \<le> MAX_LEVEL"
  shows "1 \<le> SkillStats.level (updateStats s k c t k)
       \<and> SkillStats.level (updateStats s k c t k) \<le> MAX_LEVEL
       \<and> 1 \<le> SkillStats.level (replay s evs k)
       \<and> SkillStats.level (replay s evs k) \<le> MAX_LEVEL"
  using assms updateStats_level_in_range [of s k k c t] replay_level_in_range [of s k evs]
  by simp

theorem level_stays_in_range_witness:
  "1 \<le> SkillStats.level (createDefaultStats Div)
   \<and> SkillStats.level (createDefaultStats Div) \<le> MAX_LEVEL
   \<and> SkillStats.level (updateStats createDefaultStats Div False 3000 Div) = 1
   \<and> 1 \<le> SkillStats.level
         (replay createDefaultStats [(Div, False, 3000), (Div, False, 3000), (Div, False, 3000)] Div)
   \<and> SkillStats.level
         (replay createDefaultStats [(Div, False, 3000), (Div, False, 3000), (Div, False, 3000)] Div)
       \<le> MAX_LEVEL"
  using level_stays_in_range [of createDefaultStats Div False 3000
      "[(Div, False, 3000), (Div, False, 3000), (Div, False, 3000)]"]
  by (simp add: createDefaultStats_def MAX_LEVEL_eq updateStats_unfold)

text \<open>
  Claim C10. \<open>updateStats\<close> for one skill returns, for every other skill, exactly the
  statistics it was given: level, streak, mistake streak and history.
\<close>

theorem updateStats_other_skills_unchanged:
  assumes "k' \<noteq> k"
  shows "updateStats s k c t k' = s k'
       \<and> SkillStats.level (updateStats s k c t k') = SkillStats.level (s k')
       \<and> streak (updateStats s k c t k') = streak (s k')
       \<and> mistakeStreak (updateStats s k c t k') = mistakeStreak (s k')
       \<and> history (updateStats s k c t k') = history (s k')"
  using assms by (simp add: updateStats_def Let_def)

theorem updateStats_other_skills_unchanged_witness:
  "Sub \<noteq> Add
   \<and> updateStats (updateStats createDefaultStats Sub False 100) Add True 2000 Sub
       = updateStats createDefaultStats Sub False 100 Sub
   \<and> mistakeStreak (updateStats (updateStats createDefaultStats Sub False 100) Add True 2000 Sub) = 1"
  using updateStats_other_skills_unchanged
    [of Sub Add "updateStats createDefaultStats Sub False 100" True 2000]
  by (simp add: createDefaultStats_def updateStats_unfold)

section \<open>Properties of the question generator\<close>

lemma randomInt_range:
  assumes "0 \<le> u" and "u < 1" and "lo \<le> hi"
  shows "lo \<le> randomInt lo hi u \<and> randomInt lo hi u \<le> hi"
proof -
  let ?n = "hi - lo + 1"
  have n: "0 < (of_int ?n :: rat)" using assms(3) by simp
  have "0 \<le> u * of_int ?n" using assms(1) n by simp
  then have lower: "0 \<le> \<lfloor>u * of_int ?n\<rfloor>" by simp
  have "u * of_int ?n < of_int ?n" using assms(2) n by simp
  then have upper: "\<lfloor>u * of_int ?n\<rfloor> < ?n" by (subst floor_less_iff)
  from lower upper show ?thesis by (simp add: randomInt_def Let_def)
qed

lemma floor_rat_numeral:
  "\<lfloor>(numeral m :: rat) / numeral n\<rfloor> = numeral m div numeral n"
  using floor_divide_of_int_eq [of "numeral m" "numeral n", where ?'a = rat] by simp

lemma generateQuestion_Div:
  "generateQuestion Div lv options e =
     \<lparr>Question.id' = freshId Div e,
      Question.text = showInt (max 1 (operandA Div lv e) * operandB Div lv e) @ '' / ''
               @ showInt (max 1 (operandA Div lv e)),
      Question.answer = operandB Div lv e, Question.skill = Div, Question.level = lv\<rparr>"
  by (simp add: generateQuestion_def operandA_def operandB_def Let_def)

lemma div_levels_bounds:
  "(case minA (getLevelSpec Div lv) of Some v \<Rightarrow> v | None \<Rightarrow> 0) \<ge> 1
   \<and> (case minA (getLevelSpec Div lv) of Some v \<Rightarrow> v | None \<Rightarrow> 0) \<le> maxA (getLevelSpec Div lv)
   \<and> (case minB (getLevelSpec Div lv) of Some v \<Rightarrow> v | None \<Rightarrow> 0) = 0
   \<and> 0 \<le> maxB (getLevelSpec Div lv)"
proof -
  have "\<forall>spec \<in> set (LEVELS Div).
          (case minA spec of Some v \<Rightarrow> v | None \<Rightarrow> 0) \<ge> 1
        \<and> (case minA spec of Some v \<Rightarrow> v | None \<Rightarrow> 0) \<le> maxA spec
        \<and> (case minB spec of Some v \<Rightarrow> v | None \<Rightarrow> 0) = 0
        \<and> 0 \<le> maxB spec"
    by simp
  moreover have "getLevelSpec Div lv \<in> set (LEVELS Div)"
    unfolding getLevelSpec_def Let_def by (rule nth_mem) (simp add: clamp_def)
  ultimately show ?thesis by blast
qed

lemma div_operands_within_spec:
  assumes "0 \<le> randomA e" and "randomA e < 1" and "0 \<le> randomB e" and "randomB e < 1"
  shows "1 \<le> operandA Div lv e \<and> operandA Div lv e \<le> maxA (getLevelSpec Div lv)
       \<and> 0 \<le> operandB Div lv e \<and> operandB Div lv e \<le> maxB (getLevelSpec Div lv)"
proof -
  note b = div_levels_bounds [of lv]
  from b randomInt_range [OF assms(1,2), of _ "maxA (getLevelSpec Div lv)"]
  have "1 \<le> operandA Div lv e \<and> operandA Div lv e \<le> maxA (getLevelSpec Div lv)"
    unfolding operandA_def Let_def by force
  moreover from b randomInt_range [OF assms(3,4), of 0 "maxB (getLevelSpec Div lv)"]
  have "0 \<le> operandB Div lv e \<and> operandB Div lv e \<le> maxB (getLevelSpec Div lv)"
    unfolding operandB_def Let_def by simp
  ultimately show ?thesis by simp
qed

text \<open>
  Claim C4. A division question, at any level and for any draw, is built from the
  divisor \<open>max 1 A\<close> and the quotient \<open>B\<close>: its text is the dividend \<open>divisor * B\<close>,
  \<open>/\<close>, the divisor; its answer is the quotient. The divisor is at least 1 and the
  answer times the divisor is the dividend, so the division leaves no remainder.
\<close>

theorem div_question_exact:
  fixes lv :: int and options :: "Options option" and e :: Entropy
  defines "q \<equiv> generateQuestion Div lv options e"
  defines "divisor \<equiv> max 1 (operandA Div lv e)"
  defines "dividend \<equiv> divisor * operandB Div lv e"
  shows "Question.text q = showInt dividend @ '' / '' @ showInt divisor
       \<and> Question.answer q = operandB Div lv e
       \<and> 1 \<le> divisor
       \<and> Question.answer q * divisor = dividend
       \<and> dividend mod divisor = 0
       \<and> dividend div divisor = Question.answer q"
proof -
  have pos: "1 \<le> divisor" by (simp add: divisor_def)
  have shown: "Question.text q = showInt dividend @ '' / '' @ showInt divisor"
    by (simp add: q_def generateQuestion_Div dividend_def divisor_def)
  have ans: "Question.answer q = operandB Div lv e"
    by (simp add: q_def generateQuestion_Div)
  have prod: "Question.answer q * divisor = dividend"
    by (simp add: ans dividend_def)
  have rem: "dividend mod divisor = 0"
    by (simp add: dividend_def)
  have quot: "dividend div divisor = Question.answer q"
    using pos by (simp add: ans dividend_def)
  from pos shown ans prod rem quot show ?thesis by simp
qed

theorem div_question_exact_witness:
  "Question.text (generateQuestion Div 4 None
       \<lparr>randomA = 1 / 2, randomB = 3 / 4, now = 1700, hexDigits = ''8f3a''\<rparr>) = ''81 / 9''
   \<and> Question.answer (generateQuestion Div 4 None
       \<lparr>randomA = 1 / 2, randomB = 3 / 4, now = 1700, hexDigits = ''8f3a''\<rparr>) = 9"
proof -
  have a: "operandA Div 4 \<lparr>randomA = 1 / 2, randomB = 3 / 4, now = 1700, hexDigits = ''8f3a''\<rparr> = 9"
    by (simp add: operandA_def getLevelSpec_def clamp_def randomInt_def floor_rat_numeral)
  have b: "operandB Div 4 \<lparr>randomA = 1 / 2, randomB = 3 / 4, now = 1700, hexDigits = ''8f3a''\<rparr> = 9"
    by (simp add: operandB_def getLevelSpec_def clamp_def randomInt_def floor_rat_numeral)
  have s81: "showInt 81 = ''81''" and s9: "showInt 9 = ''9''"
    by (simp_all add: showInt_def showNat.simps digitChar_def)
  show ?thesis
    using div_question_exact [of 4 None
        "\<lparr>randomA = 1 / 2, randomB = 3 / 4, now = 1700, hexDigits = ''8f3a''\<rparr>"]
    by (simp add: a b s81 s9)
qed

lemma sub_levels_leave_allowNegative_unset:
  "LevelSpec.allowNegative (getLevelSpec Sub lv) = None"
proof -
  have "\<forall>spec \<in> set (LEVELS Sub). LevelSpec.allowNegative spec = None"
    by simp
  moreover have "getLevelSpec Sub lv \<in> set (LEVELS Sub)"
    unfolding getLevelSpec_def Let_def by (rule nth_mem) (simp add: clamp_def)
  ultimately show ?thesis by blast
qed

lemma generateQuestion_Sub:
  "generateQuestion Sub lv options e =
     (let allowNeg = (case requestedNegative options of Some v \<Rightarrow> v | None \<Rightarrow> False);
          high = (if allowNeg then operandA Sub lv e else max (operandA Sub lv e) (operandB Sub lv e));
          low = (if allowNeg then operandB Sub lv e else min (operandA Sub lv e) (operandB Sub lv e))
      in \<lparr>Question.id' = freshId Sub e,
          Question.text = showInt high @ '' - '' @ showInt low,
          Question.answer = high - low, Question.skill = Sub, Question.level = lv\<rparr>)"
proof (cases "requestedNegative options")
  case None
  then show ?thesis
    by (simp add: generateQuestion_def operandA_def operandB_def Let_def
        sub_levels_leave_allowNegative_unset)
next
  case (Some v)
  then show ?thesis
    by (cases v) (simp_all add: generateQuestion_def operandA_def operandB_def Let_def)
qed

text \<open>
  Claim C5. A subtraction question whose caller does not ask for negatives (no options
  object, an options object without the \<open>allowNegative\<close> field, or one with
  \<open>allowNegative = false\<close>; no subtraction level sets the flag itself) has the larger
  drawn operand as minuend and the smaller as subtrahend: its answer is
  \<open>max A B - min A B\<close>, which is not negative. When the caller passes
  \<open>allowNegative = true\<close> the operands stay in the order drawn and the answer is
  \<open>A - B\<close>.
\<close>

theorem sub_question_operand_order:
  fixes lv :: int and options :: "Options option" and e :: Entropy
  defines "q \<equiv> generateQuestion Sub lv options e"
  defines "a \<equiv> operandA Sub lv e"
  defines "b \<equiv> operandB Sub lv e"
  shows "(options = None
          \<or> options = Some \<lparr>Options.allowNegative = None\<rparr>
          \<or> options = Some \<lparr>Options.allowNegative = Some False\<rparr> \<longrightarrow>
            Question.answer q = max a b - min a b
          \<and> 0 \<le> Question.answer q
          \<and> Question.text q = showInt (max a b) @ '' - '' @ showInt (min a b))
       \<and> (options = Some \<lparr>Options.allowNegative = Some True\<rparr> \<longrightarrow>
            Question.answer q = a - b
          \<and> Question.text q = showInt a @ '' - '' @ showInt b)"
proof -
  have ordered: "Question.answer q = max a b - min a b
          \<and> 0 \<le> Question.answer q
          \<and> Question.text q = showInt (max a b) @ '' - '' @ showInt (min a b)"
    if "options = None
          \<or> options = Some \<lparr>Options.allowNegative = None\<rparr>
          \<or> options = Some \<lparr>Options.allowNegative = Some False\<rparr>"
    using that
    by (auto simp: q_def a_def b_def generateQuestion_Sub requestedNegative_def Let_def)
  have drawn: "Question.answer q = a - b
          \<and> Question.text q = showInt a @ '' - '' @ showInt b"
    if "options = Some \<lparr>Options.allowNegative = Some True\<rparr>"
    using that
    by (simp add: q_def a_def b_def generateQuestion_Sub requestedNegative_def Let_def)
  from ordered drawn show ?thesis by blast
qed

theorem sub_question_operand_order_witness:
  "Question.answer (generateQuestion Sub 4 (Some \<lparr>Options.allowNegative = Some False\<rparr>)
        \<lparr>randomA = 1 / 10, randomB = 3 / 4, now = 1700, hexDigits = ''8f3a''\<rparr>) = 33
   \<and> Question.text (generateQuestion Sub 4 (Some \<lparr>Options.allowNegative = Some False\<rparr>)
        \<lparr>randomA = 1 / 10, randomB = 3 / 4, now = 1700, hexDigits = ''8f3a''\<rparr>)
       = ''38 - 5''
   \<and> Question.answer (generateQuestion Sub 4 (Some \<lparr>Options.allowNegative = None\<rparr>)
        \<lparr>randomA = 1 / 10, randomB = 3 / 4, now = 1700, hexDigits = ''8f3a''\<rparr>) = 33
   \<and> Question.text (generateQuestion Sub 4 (Some \<lparr>Options.allowNegative = None\<rparr>)
        \<lparr>randomA = 1 / 10, randomB = 3 / 4, now = 1700, hexDigits = ''8f3a''\<rparr>)
       = ''38 - 5''
   \<and> Question.answer (generateQuestion Sub 4 None
        \<lparr>randomA = 1 / 10, randomB = 3 / 4, now = 1700, hexDigits = ''8f3a''\<rparr>) = 33
   \<and> Question.text (generateQuestion Sub 4 None
        \<lparr>randomA = 1 / 10, randomB = 3 / 4, now = 1700, hexDigits = ''8f3a''\<rparr>) = ''38 - 5''
   \<and> Question.answer (generateQuestion Sub 4 (Some \<lparr>Options.allowNegative = Some True\<rparr>)
        \<lparr>randomA = 1 / 10, randomB = 3 / 4, now = 1700, hexDigits = ''8f3a''\<rparr>) = - 33
   \<and> Question.text (generateQuestion Sub 4 (Some \<lparr>Options.allowNegative = Some True\<rparr>)
        \<lparr>randomA = 1 / 10, randomB = 3 / 4, now = 1700, hexDigits = ''8f3a''\<rparr>)
       = ''5 - 38''"
proof -
  have a: "operandA Sub 4
        \<lparr>randomA = 1 / 10, randomB = 3 / 4, now = 1700, hexDigits = ''8f3a''\<rparr> = 5"
    by (simp add: operandA_def getLevelSpec_def clamp_def randomInt_def floor_rat_numeral)
  have b: "operandB Sub 4
        \<lparr>randomA = 1 / 10, randomB = 3 / 4, now = 1700, hexDigits = ''8f3a''\<rparr> = 38"
    by (simp add: operandB_def getLevelSpec_def clamp_def randomInt_def floor_rat_numeral)
  have s38: "showInt 38 = ''38''" and s5: "showInt 5 = ''5''"
    by (simp_all add: showInt_def showNat.simps digitChar_def)
  show ?thesis
    using sub_question_operand_order [of "Some \<lparr>Options.allowNegative = Some False\<rparr>" 4
        "\<lparr>randomA = 1 / 10, randomB = 3 / 4, now = 1700, hexDigits = ''8f3a''\<rparr>"]
      sub_question_operand_order [of "Some \<lparr>Options.allowNegative = None\<rparr>" 4
        "\<lparr>randomA = 1 / 10, randomB = 3 / 4, now = 1700, hexDigits = ''8f3a''\<rparr>"]
      sub_question_operand_order [of None 4
        "\<lparr>randomA = 1 / 10, randomB = 3 / 4, now = 1700, hexDigits = ''8f3a''\<rparr>"]
      sub_question_operand_order [of "Some \<lparr>Options.allowNegative = Some True\<rparr>" 4
        "\<lparr>randomA = 1 / 10, randomB = 3 / 4, now = 1700, hexDigits = ''8f3a''\<rparr>"]
    by (simp add: a b s38 s5)
qed

section \<open>Properties of the weakest-skill selection\<close>

lemma count_correct_foldl:
  "foldl (\<lambda>total item. total + (if correct item then 1 else 0)) n hist
     = n + int (length (filter correct hist))"
  by (induction hist arbitrary: n) simp_all

lemma accuracyFromHistory_eq:
  "accuracyFromHistory hist =
     (if hist = [] then 0 else of_nat (length (filter correct hist)) / of_nat (length hist))"
  by (simp add: accuracyFromHistory_def Let_def count_correct_foldl)

lemma accuracyFromHistory_le_1: "accuracyFromHistory hist \<le> 1"
proof (cases "hist = []")
  case True
  then show ?thesis by (simp add: accuracyFromHistory_eq)
next
  case False
  have "length (filter correct hist) \<le> length hist" by simp
  then have "(of_nat (length (filter correct hist)) :: rat) \<le> of_nat (length hist)"
    by (simp only: of_nat_le_iff)
  moreover have "0 < (of_nat (length hist) :: rat)" using False by simp
  ultimately show ?thesis
    using False by (simp add: accuracyFromHistory_eq divide_le_eq_1)
qed

lemma skillScore_eq:
  "skillScore stats k =
     (if history (stats k) = [] then 55 / 100
      else of_nat (length (filter correct (history (stats k))))
             / of_nat (length (history (stats k))))"
  by (simp add: skillScore_def Let_def accuracyFromHistory_eq)

lemma skillScore_le_1: "skillScore stats k \<le> 1"
  using accuracyFromHistory_le_1 [of "history (stats k)"]
  by (simp add: skillScore_def Let_def)

lemma getWeakestSkill_first_minimum:
  "getWeakestSkill stats =
     (if skillScore stats Add \<le> skillScore stats Sub
         \<and> skillScore stats Add \<le> skillScore stats Mul
         \<and> skillScore stats Add \<le> skillScore stats Div then Add
      else if skillScore stats Sub \<le> skillScore stats Mul
         \<and> skillScore stats Sub \<le> skillScore stats Div then Sub
      else if skillScore stats Mul \<le> skillScore stats Div then Mul
      else Div)"
  using skillScore_le_1 [of stats Add]
  by (simp add: getWeakestSkill_def SKILL_LIST_def weakestStep_def Let_def)

lemma less_three_cases: "j < Suc (Suc (Suc 0)) \<longleftrightarrow> j = 0 \<or> j = Suc 0 \<or> j = Suc (Suc 0)"
  by arith

text \<open>
  Claim C8. The score of a skill is the share of correct results in its history, and
  0.55 when the history is empty. \<open>getWeakestSkill\<close> returns a skill of lowest score,
  and among those the first in the order of \<open>SKILL_LIST\<close> (add, sub, mul, div): every
  skill before it in the list has a strictly higher score. When all four histories are
  empty it returns add.
\<close>

theorem weakest_skill_is_first_lowest:
  fixes stats :: Stats
  defines "w \<equiv> getWeakestSkill stats"
  shows "(\<forall>k. skillScore stats k =
            (if history (stats k) = [] then 55 / 100
             else of_nat (length (filter correct (history (stats k))))
                    / of_nat (length (history (stats k)))))
       \<and> SKILL_LIST = [Add, Sub, Mul, Div]
       \<and> (\<forall>k. skillScore stats w \<le> skillScore stats k)
       \<and> (\<exists>i < length SKILL_LIST. SKILL_LIST ! i = w
             \<and> (\<forall>j < i. skillScore stats w < skillScore stats (SKILL_LIST ! j)))
       \<and> ((\<forall>k. history (stats k) = []) \<longrightarrow> w = Add)"
proof -
  have scores: "\<forall>k. skillScore stats k =
            (if history (stats k) = [] then 55 / 100
             else of_nat (length (filter correct (history (stats k))))
                    / of_nat (length (history (stats k))))"
    by (simp add: skillScore_eq)
  have lowest: "skillScore stats w \<le> skillScore stats k" for k
    unfolding w_def getWeakestSkill_first_minimum by (cases k) auto
  have first: "\<exists>i < length SKILL_LIST. SKILL_LIST ! i = w
             \<and> (\<forall>j < i. skillScore stats w < skillScore stats (SKILL_LIST ! j))"
  proof (cases w)
    case Add
    then show ?thesis by (intro exI [of _ 0]) (simp add: SKILL_LIST_def)
  next
    case Sub
    then have "skillScore stats Sub < skillScore stats Add"
      unfolding w_def getWeakestSkill_first_minimum by (auto split: if_splits)
    with Sub show ?thesis
      by (intro exI [of _ "Suc 0"]) (simp add: SKILL_LIST_def)
  next
    case Mul
    then have "skillScore stats Mul < skillScore stats Add
             \<and> skillScore stats Mul < skillScore stats Sub"
      unfolding w_def getWeakestSkill_first_minimum by (auto split: if_splits)
    with Mul show ?thesis
      by (intro exI [of _ "Suc (Suc 0)"]) (auto simp: SKILL_LIST_def less_Suc_eq)
  next
    case Div
    then have "skillScore stats Div < skillScore stats Add
             \<and> skillScore stats Div < skillScore stats Sub
             \<and> skillScore stats Div < skillScore stats Mul"
      unfolding w_def getWeakestSkill_first_minimum by (auto split: if_splits)
    with Div show ?thesis
      by (intro exI [of _ "Suc (Suc (Suc 0))"]) (auto simp: SKILL_LIST_def less_three_cases)
  qed
  have empty: "(\<forall>k. history (stats k) = []) \<longrightarrow> w = Add"
    unfolding w_def getWeakestSkill_first_minimum by (simp add: skillScore_eq)
  from scores lowest first empty show ?thesis
    by (simp add: SKILL_LIST_def)
qed

theorem weakest_skill_is_first_lowest_witness:
  "(\<forall>k. history (createDefaultStats k) = [])
   \<and> getWeakestSkill createDefaultStats = Add
   \<and> skillScore (updateStats (updateStats createDefaultStats Mul False 900) Sub False 800) Add = 11 / 20
   \<and> skillScore (updateStats (updateStats createDefaultStats Mul False 900) Sub False 800) Sub = 0
   \<and> skillScore (updateStats (updateStats createDefaultStats Mul False 900) Sub False 800) Mul = 0
   \<and> getWeakestSkill (updateStats (updateStats createDefaultStats Mul False 900) Sub False 800) = Sub"
proof -
  let ?s = "updateStats (updateStats createDefaultStats Mul False 900) Sub False 800"
  have h: "history (?s Add) = [] \<and> history (?s Div) = []
         \<and> history (?s Sub) = [\<lparr>correct = False, ms = 800\<rparr>]
         \<and> history (?s Mul) = [\<lparr>correct = False, ms = 900\<rparr>]"
    by (simp add: createDefaultStats_def updateStats_unfold)
  have d: "\<forall>k. history (createDefaultStats k) = []"
    by (simp add: createDefaultStats_def)
  have w: "getWeakestSkill ?s = Sub"
    by (simp add: getWeakestSkill_first_minimum skillScore_eq h)
  show ?thesis
    using weakest_skill_is_first_lowest [of createDefaultStats]
      weakest_skill_is_first_lowest [of ?s] d w
    by (simp add: h)
qed

section \<open>Properties of the mistake ledger\<close>

lemma findIndex_None_iff: "findIndex p xs = None \<longleftrightarrow> (\<forall>x \<in> set xs. \<not> p x)"
  by (induction xs) (auto split: option.splits)

lemma findIndex_Some:
  "findIndex p xs = Some i \<Longrightarrow> i < length xs \<and> p (xs ! i) \<and> (\<forall>j < i. \<not> p (xs ! j))"
proof (induction xs arbitrary: i)
  case Nil
  then show ?case by simp
next
  case (Cons x xs)
  show ?case
  proof (cases "p x")
    case True
    with Cons.prems show ?thesis by simp
  next
    case False
    with Cons.prems obtain i' where i': "findIndex p xs = Some i'" "i = Suc i'"
      by (auto split: option.splits)
    from Cons.IH [OF i'(1)] False i'(2) show ?thesis
      by (auto simp: less_Suc_eq_0_disj)
  qed
qed

lemma findIndex_Some_split:
  assumes "findIndex p xs = Some i"
  shows "xs = take i xs @ xs ! i # drop (Suc i) xs
       \<and> p (xs ! i) \<and> (\<forall>x \<in> set (take i xs). \<not> p x)"
proof -
  from findIndex_Some [OF assms]
  have i: "i < length xs" and here: "p (xs ! i)" and before: "\<forall>j < i. \<not> p (xs ! j)"
    by simp_all
  have "\<not> p x" if "x \<in> set (take i xs)" for x
  proof -
    from that obtain j where "j < length (take i xs)" "take i xs ! j = x"
      by (auto simp: in_set_conv_nth)
    then have "j < i" "xs ! j = x" by simp_all
    with before show ?thesis by blast
  qed
  with i here show ?thesis by (simp add: id_take_nth_drop [symmetric])
qed

lemma findIndex_first_occurrence:
  assumes "xs = before @ x # after" and "p x" and "\<forall>y \<in> set before. \<not> p y"
  shows "findIndex p xs = Some (length before)"
  using assms(3) unfolding assms(1)
  by (induction before) (simp_all add: assms(2))

lemma addMistakeEntry_absent:
  assumes "\<forall>item \<in> set items. MistakeItem.id' item \<noteq> makeMistakeId question"
  shows "addMistakeEntry items question clock =
           take 50
             (\<lparr>MistakeItem.id' = makeMistakeId question,
               MistakeItem.text = Question.text question,
               MistakeItem.answer = Question.answer question,
               MistakeItem.skill = Question.skill question,
               MistakeItem.level = Question.level question,
               misses = 1, lastMissedAt = clock\<rparr> # items)"
proof -
  have "findIndex (\<lambda>item. MistakeItem.id' item = makeMistakeId question) items = None"
    using assms by (simp add: findIndex_None_iff)
  then show ?thesis
    by (simp add: addMistakeEntry_def Let_def MAX_MISTAKES_def)
qed

lemma addMistakeEntry_present:
  assumes "items = before @ existing # after"
    and "MistakeItem.id' existing = makeMistakeId question"
    and "\<forall>item \<in> set before. MistakeItem.id' item \<noteq> makeMistakeId question"
  shows "addMistakeEntry items question clock =
           take 50
             (existing\<lparr>MistakeItem.answer := Question.answer question,
                       MistakeItem.level := Question.level question,
                       misses := misses existing + 1,
                       lastMissedAt := clock\<rparr> # before @ after)"
proof -
  have "findIndex (\<lambda>item. MistakeItem.id' item = makeMistakeId question) items
          = Some (length before)"
    using assms by (intro findIndex_first_occurrence [of _ before existing after]) simp_all
  then show ?thesis
    by (simp add: addMistakeEntry_def Let_def MAX_MISTAKES_def spliceOut_def assms(1))
qed

lemma addMistakeEntry_present_ex:
  assumes "\<exists>item \<in> set items. MistakeItem.id' item = makeMistakeId question"
  shows "\<exists>before existing after.
           items = before @ existing # after
         \<and> MistakeItem.id' existing = makeMistakeId question
         \<and> (\<forall>item \<in> set before. MistakeItem.id' item \<noteq> makeMistakeId question)
         \<and> addMistakeEntry items question clock =
             take 50
               (existing\<lparr>MistakeItem.answer := Question.answer question,
                         MistakeItem.level := Question.level question,
                         misses := misses existing + 1,
                         lastMissedAt := clock\<rparr> # before @ after)"
proof -
  let ?p = "\<lambda>item. MistakeItem.id' item = makeMistakeId question"
  from assms have "findIndex ?p items \<noteq> None"
    by (simp add: findIndex_None_iff)
  then obtain i where i: "findIndex ?p items = Some i" by auto
  from findIndex_Some_split [OF i]
  have parts: "items = take i items @ items ! i # drop (Suc i) items"
    and here: "?p (items ! i)"
    and before: "\<forall>item \<in> set (take i items). \<not> ?p item"
    by simp_all
  from addMistakeEntry_present [OF parts here before] parts here before
  show ?thesis by blast
qed

lemma addMistakeEntry_length: "length (addMistakeEntry items question clock) \<le> 50"
  by (simp add: addMistakeEntry_def Let_def MAX_MISTAKES_def split: option.splits)

lemma addMistakeEntry_twice:
  assumes absent: "\<forall>item \<in> set items. MistakeItem.id' item \<noteq> makeMistakeId question"
    and same: "Question.skill again = Question.skill question"
      "Question.text again = Question.text question"
  shows "addMistakeEntry (addMistakeEntry items question clock) again clock' =
           \<lparr>MistakeItem.id' = makeMistakeId question,
             MistakeItem.text = Question.text question,
             MistakeItem.answer = Question.answer again,
             MistakeItem.skill = Question.skill question,
             MistakeItem.level = Question.level again,
             misses = 2, lastMissedAt = clock'\<rparr> # take 49 items"
proof -
  let ?new = "\<lparr>MistakeItem.id' = makeMistakeId question,
               MistakeItem.text = Question.text question,
               MistakeItem.answer = Question.answer question,
               MistakeItem.skill = Question.skill question,
               MistakeItem.level = Question.level question,
               misses = 1, lastMissedAt = clock\<rparr>"
  have key: "makeMistakeId again = makeMistakeId question"
    using same by (simp add: makeMistakeId_def)
  have first: "addMistakeEntry items question clock = ?new # take 49 items"
    by (simp add: addMistakeEntry_absent [OF absent])
  have "addMistakeEntry (?new # take 49 items) again clock' =
          take 50 (?new\<lparr>MistakeItem.answer := Question.answer again,
                         MistakeItem.level := Question.level again,
                         misses := misses ?new + 1,
                         lastMissedAt := clock'\<rparr> # [] @ take 49 items)"
    by (rule addMistakeEntry_present) (simp_all add: key)
  then show ?thesis
    by (simp add: first)
qed

lemma addMistakeEntry_head:
  "addMistakeEntry items question clock \<noteq> []
   \<and> MistakeItem.id' (hd (addMistakeEntry items question clock)) = makeMistakeId question"
proof (cases "\<forall>item \<in> set items. MistakeItem.id' item \<noteq> makeMistakeId question")
  case True
  then show ?thesis by (simp add: addMistakeEntry_absent)
next
  case False
  then have "\<exists>item \<in> set items. MistakeItem.id' item = makeMistakeId question" by blast
  from addMistakeEntry_present_ex [OF this, of clock] show ?thesis by auto
qed

lemma addMistakeEntry_again:
  assumes "Question.skill again = Question.skill question"
    and "Question.text again = Question.text question"
  shows "misses (hd (addMistakeEntry (addMistakeEntry items question clock) again clock'))
           = misses (hd (addMistakeEntry items question clock)) + 1"
proof -
  have key: "makeMistakeId again = makeMistakeId question"
    using assms by (simp add: makeMistakeId_def)
  from addMistakeEntry_head [of items question clock]
  obtain h rest where r: "addMistakeEntry items question clock = h # rest"
    and h: "MistakeItem.id' h = makeMistakeId question"
    by (cases "addMistakeEntry items question clock") auto
  have "addMistakeEntry (h # rest) again clock' =
          take 50 (h\<lparr>MistakeItem.answer := Question.answer again,
                     MistakeItem.level := Question.level again,
                     misses := misses h + 1,
                     lastMissedAt := clock'\<rparr> # [] @ rest)"
    by (rule addMistakeEntry_present) (simp_all add: key h)
  then show ?thesis by (simp add: r)
qed

text \<open>
  Claim C9. The key of a question in the ledger is its skill name, a colon and its
  problem text; the question's own id plays no part. When the ledger holds an entry
  with that key, \<open>addMistakeEntry\<close> takes the first such entry out, raises its misses
  by 1, replaces its answer, level and time of the last miss, and puts it in front of
  the others; when it holds none, a new entry with one miss goes in front. In both
  cases only the first 50 entries are kept, so the result has at most 50. A second
  call with the same skill and text raises the misses of the head entry by 1 again;
  starting from a ledger without the key, the two calls leave exactly one entry with
  that key, at the head, with two misses.
\<close>

theorem addMistakeEntry_merges_by_skill_and_text:
  fixes items :: "MistakeItem list" and question again :: Question and clock clock' :: int
  defines "key \<equiv> makeMistakeId question"
  defines "once \<equiv> addMistakeEntry items question clock"
  defines "twice \<equiv> addMistakeEntry once again clock'"
  shows "key = skillName (Question.skill question) @ '':'' @ Question.text question
       \<and> (\<forall>other. makeMistakeId (question\<lparr>Question.id' := other\<rparr>) = key)
       \<and> ((\<exists>item \<in> set items. MistakeItem.id' item = key) \<longrightarrow>
            (\<exists>before existing after.
               items = before @ existing # after
             \<and> MistakeItem.id' existing = key
             \<and> (\<forall>item \<in> set before. MistakeItem.id' item \<noteq> key)
             \<and> once = take 50
                  (existing\<lparr>MistakeItem.answer := Question.answer question,
                            MistakeItem.level := Question.level question,
                            misses := misses existing + 1,
                            lastMissedAt := clock\<rparr> # before @ after)))
       \<and> ((\<forall>item \<in> set items. MistakeItem.id' item \<noteq> key) \<longrightarrow>
            once = take 50
              (\<lparr>MistakeItem.id' = key,
                MistakeItem.text = Question.text question,
                MistakeItem.answer = Question.answer question,
                MistakeItem.skill = Question.skill question,
                MistakeItem.level = Question.level question,
                misses = 1, lastMissedAt = clock\<rparr> # items))
       \<and> length once \<le> 50
       \<and> once \<noteq> []
       \<and> MistakeItem.id' (hd once) = key
       \<and> (Question.skill again = Question.skill question
            \<and> Question.text again = Question.text question \<longrightarrow>
              length twice \<le> 50
            \<and> MistakeItem.id' (hd twice) = key
            \<and> misses (hd twice) = misses (hd once) + 1
            \<and> ((\<forall>item \<in> set items. MistakeItem.id' item \<noteq> key) \<longrightarrow>
                  misses (hd twice) = 2
                \<and> length (filter (\<lambda>item. MistakeItem.id' item = key) twice) = 1))"
proof -
  have k: "key = skillName (Question.skill question) @ '':'' @ Question.text question"
    by (simp add: key_def makeMistakeId_def)
  have noid: "\<forall>other. makeMistakeId (question\<lparr>Question.id' := other\<rparr>) = key"
    by (simp add: key_def makeMistakeId_def)
  have present: "(\<exists>item \<in> set items. MistakeItem.id' item = key) \<longrightarrow>
            (\<exists>before existing after.
               items = before @ existing # after
             \<and> MistakeItem.id' existing = key
             \<and> (\<forall>item \<in> set before. MistakeItem.id' item \<noteq> key)
             \<and> once = take 50
                  (existing\<lparr>MistakeItem.answer := Question.answer question,
                            MistakeItem.level := Question.level question,
                            misses := misses existing + 1,
                            lastMissedAt := clock\<rparr> # before @ after))"
    unfolding key_def once_def using addMistakeEntry_present_ex [of items question clock]
    by blast
  have absent: "(\<forall>item \<in> set items. MistakeItem.id' item \<noteq> key) \<longrightarrow>
            once = take 50
              (\<lparr>MistakeItem.id' = key,
                MistakeItem.text = Question.text question,
                MistakeItem.answer = Question.answer question,
                MistakeItem.skill = Question.skill question,
                MistakeItem.level = Question.level question,
                misses = 1, lastMissedAt = clock\<rparr> # items)"
    unfolding key_def once_def using addMistakeEntry_absent [of items question clock]
    by blast
  have len: "length once \<le> 50"
    unfolding once_def by (rule addMistakeEntry_length)
  have head: "once \<noteq> [] \<and> MistakeItem.id' (hd once) = key"
    unfolding once_def key_def by (rule addMistakeEntry_head)
  have second: "length twice \<le> 50
            \<and> MistakeItem.id' (hd twice) = key
            \<and> misses (hd twice) = misses (hd once) + 1
            \<and> ((\<forall>item \<in> set items. MistakeItem.id' item \<noteq> key) \<longrightarrow>
                  misses (hd twice) = 2
                \<and> length (filter (\<lambda>item. MistakeItem.id' item = key) twice) = 1)"
    if same: "Question.skill again = Question.skill question"
      "Question.text again = Question.text question"
  proof -
    have key2: "makeMistakeId again = key"
      using same by (simp add: key_def makeMistakeId_def)
    have l2: "length twice \<le> 50"
      unfolding twice_def by (rule addMistakeEntry_length)
    have h2: "MistakeItem.id' (hd twice) = key"
      unfolding twice_def using addMistakeEntry_head [of once again clock'] key2 by simp
    have m2: "misses (hd twice) = misses (hd once) + 1"
      unfolding twice_def once_def by (rule addMistakeEntry_again [OF same])
    have fresh: "misses (hd twice) = 2
                \<and> length (filter (\<lambda>item. MistakeItem.id' item = key) twice) = 1"
      if none: "\<forall>item \<in> set items. MistakeItem.id' item \<noteq> key"
    proof -
      have rest: "filter (\<lambda>item. MistakeItem.id' item = key) (take 49 items) = []"
        using none by (auto simp: filter_empty_conv dest: in_set_takeD)
      have "twice =
           \<lparr>MistakeItem.id' = makeMistakeId question,
             MistakeItem.text = Question.text question,
             MistakeItem.answer = Question.answer again,
             MistakeItem.skill = Question.skill question,
             MistakeItem.level = Question.level again,
             misses = 2, lastMissedAt = clock'\<rparr> # take 49 items"
        unfolding twice_def once_def
        using none by (intro addMistakeEntry_twice same) (simp add: key_def)
      then show ?thesis using rest by (simp add: key_def)
    qed
    from l2 h2 m2 fresh show ?thesis by blast
  qed
  from k noid present absent len head second show ?thesis by blast
qed

theorem addMistakeEntry_merges_by_skill_and_text_witness:
  "map MistakeItem.id'
       [\<lparr>MistakeItem.id' = ''mul:3 x 4'', MistakeItem.text = ''3 x 4'',
         MistakeItem.answer = 12, MistakeItem.skill = Mul, MistakeItem.level = 1,
         misses = 4, lastMissedAt = 10\<rparr>] = [''mul:3 x 4'']
   \<and> makeMistakeId \<lparr>Question.id' = ''add-20-8f3a'', Question.text = ''7 + 8'',
          Question.answer = 15, Question.skill = Add, Question.level = 2\<rparr> = ''add:7 + 8''
   \<and> addMistakeEntry
        (addMistakeEntry
           [\<lparr>MistakeItem.id' = ''mul:3 x 4'', MistakeItem.text = ''3 x 4'',
             MistakeItem.answer = 12, MistakeItem.skill = Mul, MistakeItem.level = 1,
             misses = 4, lastMissedAt = 10\<rparr>]
           \<lparr>Question.id' = ''add-20-8f3a'', Question.text = ''7 + 8'',
             Question.answer = 15, Question.skill = Add, Question.level = 2\<rparr> 20)
        \<lparr>Question.id' = ''add-30-c41d'', Question.text = ''7 + 8'',
          Question.answer = 15, Question.skill = Add, Question.level = 3\<rparr> 30
      = [\<lparr>MistakeItem.id' = ''add:7 + 8'', MistakeItem.text = ''7 + 8'',
          MistakeItem.answer = 15, MistakeItem.skill = Add, MistakeItem.level = 3,
          misses = 2, lastMissedAt = 30\<rparr>,
         \<lparr>MistakeItem.id' = ''mul:3 x 4'', MistakeItem.text = ''3 x 4'',
          MistakeItem.answer = 12, MistakeItem.skill = Mul, MistakeItem.level = 1,
          misses = 4, lastMissedAt = 10\<rparr>]
   \<and> makeMistakeId \<lparr>Question.id' = ''mul-40-77aa'', Question.text = ''3 x 4'',
          Question.answer = 12, Question.skill = Mul, Question.level = 2\<rparr> = ''mul:3 x 4''
   \<and> addMistakeEntry
        [\<lparr>MistakeItem.id' = ''mul:3 x 4'', MistakeItem.text = ''3 x 4'',
          MistakeItem.answer = 12, MistakeItem.skill = Mul, MistakeItem.level = 1,
          misses = 4, lastMissedAt = 10\<rparr>]
        \<lparr>Question.id' = ''mul-40-77aa'', Question.text = ''3 x 4'',
          Question.answer = 12, Question.skill = Mul, Question.level = 2\<rparr> 40
      = [\<lparr>MistakeItem.id' = ''mul:3 x 4'', MistakeItem.text = ''3 x 4'',
          MistakeItem.answer = 12, MistakeItem.skill = Mul, MistakeItem.level = 2,
          misses = 5, lastMissedAt = 40\<rparr>]"
  using addMistakeEntry_merges_by_skill_and_text
    [where items = "[\<lparr>MistakeItem.id' = ''mul:3 x 4'', MistakeItem.text = ''3 x 4'',
           MistakeItem.answer = 12, MistakeItem.skill = Mul, MistakeItem.level = 1,
           misses = 4, lastMissedAt = 10\<rparr>]"
       and question = "\<lparr>Question.id' = ''add-20-8f3a'', Question.text = ''7 + 8'',
          Question.answer = 15, Question.skill = Add, Question.level = 2\<rparr>"
       and again = "\<lparr>Question.id' = ''add-30-c41d'', Question.text = ''7 + 8'',
          Question.answer = 15, Question.skill = Add, Question.level = 3\<rparr>"
       and clock = 20 and clock' = 30]
    addMistakeEntry_merges_by_skill_and_text
    [where items = "[\<lparr>MistakeItem.id' = ''mul:3 x 4'', MistakeItem.text = ''3 x 4'',
           MistakeItem.answer = 12, MistakeItem.skill = Mul, MistakeItem.level = 1,
           misses = 4, lastMissedAt = 10\<rparr>]"
       and question = "\<lparr>Question.id' = ''mul-40-77aa'', Question.text = ''3 x 4'',
          Question.answer = 12, Question.skill = Mul, Question.level = 2\<rparr>"
       and again = "\<lparr>Question.id' = ''mul-40-77aa'', Question.text = ''3 x 4'',
          Question.answer = 12, Question.skill = Mul, Question.level = 2\<rparr>"
       and clock = 40 and clock' = 50]
  by (simp add: makeMistakeId_def addMistakeEntry_def spliceOut_def MAX_MISTAKES_def)

end
